theory Spec2Isabelle
  imports Complex_Main "HOL-Library.Multiset"
begin

section \<open>The embedding store of slackagent (embedding/embedding.go)\<close>

subsection \<open>float32 arithmetic\<close>

text \<open>
  The Go code computes on \<^verbatim>\<open>float32\<close>. Its operations are kept abstract: a record
  of the operations the code uses, over any carrier \<open>'f\<close>. Nothing is assumed about them
  unless a theorem says so, so every result below holds for IEEE-754 single precision
  (rounding, signed zeros, infinities and NaN included) as it does for the reals.
  \<^item> \<open>f_zero\<close> is the zero value of \<^verbatim>\<open>var sum float32\<close>;
  \<^item> \<open>f_sqrt x\<close> is \<^verbatim>\<open>float32(math.Sqrt(float64(x)))\<close>;
  \<^item> \<open>f_eq\<close>, \<open>f_gt\<close>, \<open>f_ge\<close> are Go's \<^verbatim>\<open>==\<close>, \<^verbatim>\<open>>\<close>, \<^verbatim>\<open>>=\<close> on floats.
\<close>

record 'f float32_ops =
  f_zero :: 'f
  f_add :: "'f \<Rightarrow> 'f \<Rightarrow> 'f"
  f_mul :: "'f \<Rightarrow> 'f \<Rightarrow> 'f"
  f_div :: "'f \<Rightarrow> 'f \<Rightarrow> 'f"
  f_sqrt :: "'f \<Rightarrow> 'f"
  f_eq :: "'f \<Rightarrow> 'f \<Rightarrow> bool"
  f_gt :: "'f \<Rightarrow> 'f \<Rightarrow> bool"
  f_ge :: "'f \<Rightarrow> 'f \<Rightarrow> bool"

text \<open>The exact operations on the reals, to run the definitions on concrete inputs.\<close>

definition real_ops :: "real float32_ops" where
  "real_ops = \<lparr>f_zero = 0, f_add = (+), f_mul = (*), f_div = (/),
     f_sqrt = sqrt, f_eq = (=), f_gt = (\<lambda>a b. b < a), f_ge = (\<lambda>a b. b \<le> a)\<rparr>"

subsection \<open>Data model\<close>

record 'f EmbeddingDocument =
  ID :: string
  Content :: string
  URL :: string
  Title :: string
  Embedding :: "'f list"
  Depth :: int

datatype error =
    ProviderNotInitialized
  | ProviderFailed string
  | ReadFileFailed string
  | UnmarshalFailed string
  | MarshalFailed string
  | WriteFileFailed string

type_synonym 'f EmbeddingProvider = "string \<Rightarrow> error + 'f list"

text \<open>
  The store: the two exported (persisted) fields, the file path and the provider;
  \<open>None\<close> is the nil provider. The mutex and the runtime handles do not take part in
  any sequential result.
\<close>

record 'f EmbeddingStore =
  Documents :: "'f EmbeddingDocument list"
  LastUpdated :: string
  filePath :: string
  provider :: "'f EmbeddingProvider option"

record 'f SearchResult =
  Document :: "'f EmbeddingDocument"
  Similarity :: 'f

subsection \<open>AddDocument, Clear\<close>

definition AddDocument :: "'f EmbeddingStore \<Rightarrow> 'f EmbeddingDocument \<Rightarrow> 'f EmbeddingStore" where
  "AddDocument es doc = es\<lparr>Documents := Documents es @ [doc]\<rparr>"

definition Clear :: "'f EmbeddingStore \<Rightarrow> 'f EmbeddingStore" where
  "Clear es = es\<lparr>Documents := [], LastUpdated := []\<rparr>"

subsection \<open>CosineSimilarity\<close>

text \<open>
  The loop \<^verbatim>\<open>for i := range a { dotProduct += a[i] * b[i] }\<close> runs only when the lengths
  are equal, so every index is in range of both slices; the function has no error
  result and no panic.
\<close>

definition CosineSimilarity :: "'f float32_ops \<Rightarrow> 'f list \<Rightarrow> 'f list \<Rightarrow> 'f" where
  "CosineSimilarity ops a b =
     (if length a \<noteq> length b then f_zero ops
      else fold (\<lambda>i dotProduct. f_add ops dotProduct (f_mul ops (a ! i) (b ! i)))
             [0..<length a] (f_zero ops))"

subsection \<open>NormalizeEmbedding\<close>

text \<open>
  \<^verbatim>\<open>sum += v * v\<close> over the slice, \<^verbatim>\<open>norm := float32(math.Sqrt(float64(sum)))\<close>,
  then the input slice itself when \<^verbatim>\<open>norm == 0\<close>, a fresh slice of quotients otherwise.
\<close>

definition NormalizeEmbedding :: "'f float32_ops \<Rightarrow> 'f list \<Rightarrow> 'f list" where
  "NormalizeEmbedding ops embedding =
     (let sum = fold (\<lambda>v sum. f_add ops sum (f_mul ops v v)) embedding (f_zero ops);
          norm = f_sqrt ops sum
      in if f_eq ops norm (f_zero ops) then embedding
         else map (\<lambda>v. f_div ops v norm) embedding)"

subsection \<open>Search\<close>

definition GetEmbedding :: "'f EmbeddingStore \<Rightarrow> string \<Rightarrow> error + 'f list" where
  "GetEmbedding es text =
     (case provider es of
        None \<Rightarrow> Inl ProviderNotInitialized
      | Some p \<Rightarrow> p text)"

text \<open>The scoring loop: every document is scored, those at or above the threshold are appended.\<close>

fun score_documents ::
  "'f float32_ops \<Rightarrow> 'f list \<Rightarrow> 'f \<Rightarrow> 'f EmbeddingDocument list \<Rightarrow> 'f SearchResult list
     \<Rightarrow> 'f SearchResult list" where
  "score_documents ops queryEmbedding threshold [] results = results"
| "score_documents ops queryEmbedding threshold (doc # docs) results =
     (let similarity = CosineSimilarity ops queryEmbedding (Embedding doc);
          searchResult = \<lparr>Document = doc, Similarity = similarity\<rparr>
      in score_documents ops queryEmbedding threshold docs
           (if f_ge ops similarity threshold then results @ [searchResult] else results))"

text \<open>
  The ranking loops:
  \<^verbatim>\<open>for i := 0; i < len(results); i++ {
    for j := i + 1; j < len(results); j++ {
      if results[j].Similarity > results[i].Similarity { results[i], results[j] = results[j], results[i] } } }\<close>
\<close>

definition swap_results :: "nat \<Rightarrow> nat \<Rightarrow> 'a list \<Rightarrow> 'a list" where
  "swap_results i j results = results[i := results ! j, j := results ! i]"

function sort_inner ::
  "'f float32_ops \<Rightarrow> nat \<Rightarrow> nat \<Rightarrow> 'f SearchResult list \<Rightarrow> 'f SearchResult list" where
  "sort_inner ops i j results =
     (if j < length results
      then sort_inner ops i (j + 1)
             (if f_gt ops (Similarity (results ! j)) (Similarity (results ! i))
              then swap_results i j results else results)
      else results)"
  by pat_completeness auto
termination
  by (relation "measure (\<lambda>(ops, i, j, results). length results - j)")
     (auto simp: swap_results_def)

declare sort_inner.simps [simp del]

function sort_outer ::
  "'f float32_ops \<Rightarrow> nat \<Rightarrow> 'f SearchResult list \<Rightarrow> 'f SearchResult list" where
  "sort_outer ops i results =
     (if i < length results
      then sort_outer ops (i + 1) (sort_inner ops i (i + 1) results)
      else results)"
  by pat_completeness auto
termination
proof (relation "measure (\<lambda>(ops, i, results). length results - i)")
  show "wf (measure (\<lambda>(ops, i, results). length results - i))"
    by simp
next
  fix ops :: "'f float32_ops" and i :: nat and results :: "'f SearchResult list"
  assume i: "i < length results"
  have "length (sort_inner ops i j results) = length results" for j
  proof (induction ops i j results rule: sort_inner.induct)
    case (1 ops i j results)
    then show ?case
      by (subst sort_inner.simps) (simp add: swap_results_def)
  qed
  with i show "((ops, i + 1, sort_inner ops i (i + 1) results), (ops, i, results))
                 \<in> measure (\<lambda>(ops, i, results). length results - i)"
    by simp
qed

declare sort_outer.simps [simp del]

text \<open>
  \<open>topK\<close> is a Go \<^verbatim>\<open>int\<close>; it is only compared, and \<^verbatim>\<open>results[:topK]\<close> is taken
  with \<open>0 < topK < len(results)\<close>. The log lines and the copy \<^verbatim>\<open>allScores\<close>, sorted on
  its own backing array for the log, leave no trace in the result.
\<close>

definition Search ::
  "'f float32_ops \<Rightarrow> 'f EmbeddingStore \<Rightarrow> string \<Rightarrow> int \<Rightarrow> 'f \<Rightarrow> error + 'f SearchResult list" where
  "Search ops es query topK threshold =
     (if length (Documents es) = 0 then Inr []
      else case GetEmbedding es query of
        Inl err \<Rightarrow> Inl err
      | Inr queryEmbedding \<Rightarrow>
          (let results = score_documents ops queryEmbedding threshold (Documents es) [];
               results = sort_outer ops 0 results;
               results = (if topK > 0 \<and> int (length results) > topK
                          then take (nat topK) results else results)
           in Inr results))"

subsection \<open>Machine integers and durations\<close>

text \<open>
  Go's \<^verbatim>\<open>int\<close> and \<^verbatim>\<open>time.Duration\<close> are 64-bit two's complement. They are modelled
  as \<open>int\<close>, and every addition, subtraction and multiplication of the code is wrapped.
\<close>

definition wrap64 :: "int \<Rightarrow> int" where
  "wrap64 x = (x + 2 ^ 63) mod 2 ^ 64 - 2 ^ 63"

definition in_int64 :: "int \<Rightarrow> bool" where
  "in_int64 x = (- (2 ^ 63) \<le> x \<and> x < 2 ^ 63)"

definition Hour :: int where \<comment> \<open>\<^verbatim>\<open>time.Hour\<close>, in nanoseconds\<close>
  "Hour = 3600000000000"

definition minDuration :: int where
  "minDuration = - (2 ^ 63)"

definition maxDuration :: int where
  "maxDuration = 2 ^ 63 - 1"

text \<open>
  An instant is its number of nanoseconds on the time line. \<^verbatim>\<open>time.Since(t)\<close> is
  \<^verbatim>\<open>time.Now().Sub(t)\<close>; \<^verbatim>\<open>Sub\<close> saturates at the ends of the Duration range.
\<close>

definition Since :: "int \<Rightarrow> int \<Rightarrow> int" where
  "Since now t =
     (if now - t < minDuration then minDuration
      else if now - t > maxDuration then maxDuration
      else now - t)"

subsection \<open>IsStale\<close>

text \<open>
  \<open>parse\<close> stands for \<^verbatim>\<open>time.Parse(time.RFC3339, _)\<close> (\<open>None\<close> when it returns an error),
  \<open>now\<close> for the clock read by \<^verbatim>\<open>time.Since\<close>. The threshold is
  \<^verbatim>\<open>time.Duration(days) * 24 * time.Hour\<close>, two 64-bit multiplications.
\<close>

definition IsStale :: "(string \<Rightarrow> int option) \<Rightarrow> int \<Rightarrow> 'f EmbeddingStore \<Rightarrow> int \<Rightarrow> bool" where
  "IsStale parse now es days =
     (if LastUpdated es = [] then True
      else case parse (LastUpdated es) of
        None \<Rightarrow> True
      | Some lastUpdate \<Rightarrow>
          (let age = Since now lastUpdate;
               staleThreshold = wrap64 (wrap64 (days * 24) * Hour)
           in age > staleThreshold))"

subsection \<open>NewEmbeddingStore, Load, Save\<close>

text \<open>
  \<open>runtime\<close> is the outcome of creating the session, the model and the pipeline: an
  error, or the local provider built on the pipeline.
\<close>

definition NewEmbeddingStore ::
  "string \<Rightarrow> error + 'f EmbeddingProvider \<Rightarrow> 'f EmbeddingProvider option
     \<Rightarrow> error + 'f EmbeddingStore" where
  "NewEmbeddingStore path runtime prov =
     (case runtime of
        Inl err \<Rightarrow> Inl err
      | Inr localProvider \<Rightarrow>
          Inr \<lparr>Documents = [], LastUpdated = [], filePath = path,
               provider = Some (case prov of None \<Rightarrow> localProvider | Some p \<Rightarrow> p)\<rparr>)"

text \<open>
  \<^verbatim>\<open>os.ReadFile\<close> returns the bytes or an error; \<^verbatim>\<open>os.IsNotExist\<close> tells the missing
  file from the other failures. \<^verbatim>\<open>json.Unmarshal(data, es)\<close> writes the two exported
  fields, and may fail after it has written some of them.
\<close>

datatype read_error = ErrNotExist | ErrRead string

type_synonym 'f persisted = "'f EmbeddingDocument list \<times> string"

definition Load ::
  "(string \<Rightarrow> read_error + string) \<Rightarrow> (string \<Rightarrow> 'f persisted \<Rightarrow> string option \<times> 'f persisted)
     \<Rightarrow> 'f EmbeddingStore \<Rightarrow> error option \<times> 'f EmbeddingStore" where
  "Load readFile unmarshal es =
     (case readFile (filePath es) of
        Inl err \<Rightarrow>
          (case err of
             ErrNotExist \<Rightarrow> (None, es)
           | ErrRead msg \<Rightarrow> (Some (ReadFileFailed msg), es))
      | Inr data \<Rightarrow>
          (case unmarshal data (Documents es, LastUpdated es) of
             (Some msg, (docs, stamp)) \<Rightarrow>
               (Some (UnmarshalFailed msg), es\<lparr>Documents := docs, LastUpdated := stamp\<rparr>)
           | (None, (docs, stamp)) \<Rightarrow>
               (None, es\<lparr>Documents := docs, LastUpdated := stamp\<rparr>)))"

text \<open>
  \<open>stamp\<close> is \<^verbatim>\<open>time.Now().Format(time.RFC3339)\<close>; it is stored before anything can
  fail. \<open>writeFile path data\<close> is \<^verbatim>\<open>os.WriteFile\<close>.
\<close>

definition Save ::
  "string \<Rightarrow> ('f persisted \<Rightarrow> string + string) \<Rightarrow> (string \<Rightarrow> string \<Rightarrow> string option)
     \<Rightarrow> 'f EmbeddingStore \<Rightarrow> error option \<times> 'f EmbeddingStore" where
  "Save stamp marshal writeFile es =
     (let es = es\<lparr>LastUpdated := stamp\<rparr> in
      case marshal (Documents es, LastUpdated es) of
        Inl msg \<Rightarrow> (Some (MarshalFailed msg), es)
      | Inr data \<Rightarrow>
          (case writeFile (filePath es) data of
             Some msg \<Rightarrow> (Some (WriteFileFailed msg), es)
           | None \<Rightarrow> (None, es)))"

subsection \<open>ChunkText\<close>

text \<open>
  A text is the sequence of runes Go decodes from the string (a byte that is not valid
  UTF-8 decodes to U+FFFD, which is no space). The library functions are modelled from
  their documentation:
  \<^item> \<open>IsSpace\<close> is \<^verbatim>\<open>unicode.IsSpace\<close>, the Unicode White_Space property;
  \<^item> \<open>re_space\<close> is the class \<^verbatim>\<open>\s\<close> of package regexp: tab, newline, form feed,
    carriage return and space;
  \<^item> \<open>TrimSpace\<close> is \<^verbatim>\<open>strings.TrimSpace\<close>;
  \<^item> \<open>collapse_spaces\<close> is \<^verbatim>\<open>regexp.MustCompile(`\s+`).ReplaceAllString(text, " ")\<close>:
    every maximal run of \<^verbatim>\<open>\s\<close> becomes one space;
  \<^item> \<open>Fields\<close> is \<^verbatim>\<open>strings.Fields\<close>: the maximal runs of runes that are no space;
  \<^item> \<open>Join\<close> is \<^verbatim>\<open>strings.Join\<close>.
\<close>

type_synonym rune = nat

definition runes :: "string \<Rightarrow> rune list" where
  "runes s = map of_char s"

definition IsSpace :: "rune \<Rightarrow> bool" where
  "IsSpace r =
     ((9 \<le> r \<and> r \<le> 13) \<or> r = 32 \<or> r = 133 \<or> r = 160 \<or> r = 5760
      \<or> (8192 \<le> r \<and> r \<le> 8202) \<or> r = 8232 \<or> r = 8233 \<or> r = 8239 \<or> r = 8287
      \<or> r = 12288)"

definition re_space :: "rune \<Rightarrow> bool" where
  "re_space r = (r = 9 \<or> r = 10 \<or> r = 12 \<or> r = 13 \<or> r = 32)"

definition TrimSpace :: "rune list \<Rightarrow> rune list" where
  "TrimSpace s = rev (dropWhile IsSpace (rev (dropWhile IsSpace s)))"

function collapse_spaces :: "rune list \<Rightarrow> rune list" where
  "collapse_spaces [] = []"
| "collapse_spaces (r # rs) =
     (if re_space r then 32 # collapse_spaces (dropWhile re_space rs)
      else r # collapse_spaces rs)"
  by pat_completeness auto
termination
  by (relation "measure length") (auto simp: less_Suc_eq_le length_dropWhile_le)

text \<open>\<open>field\<close> holds the runes of the field being read, empty between fields.\<close>

fun fields_from :: "rune list \<Rightarrow> rune list \<Rightarrow> rune list list" where
  "fields_from field [] = (if field = [] then [] else [field])"
| "fields_from field (r # rs) =
     (if IsSpace r
      then (if field = [] then fields_from [] rs else field # fields_from [] rs)
      else fields_from (field @ [r]) rs)"

definition Fields :: "rune list \<Rightarrow> rune list list" where
  "Fields s = fields_from [] s"

fun Join :: "rune list list \<Rightarrow> rune list \<Rightarrow> rune list" where
  "Join [] sep = []"
| "Join [w] sep = w"
| "Join (w # ws) sep = w @ sep @ Join ws sep"

text \<open>
  The loop
  \<^verbatim>\<open>for i := 0; i < len(words); i += chunkSize - overlap {
    end := i + chunkSize
    if end > len(words) { end = len(words) }
    chunk := strings.Join(words[i:end], " ")
    chunks = append(chunks, chunk)
    if end >= len(words) { break }
  }\<close>
  may run forever, so it is a partial function: \<open>None\<close> is the run that never returns.
  The slice expression \<^verbatim>\<open>words[i:end]\<close> panics unless \<open>0 \<le> i \<le> end \<le> cap(words)\<close>;
  \<open>end\<close> is at most \<open>len(words)\<close> there.
\<close>

datatype panic = SliceBoundsOutOfRange

partial_function (option) chunk_loop ::
  "rune list list \<Rightarrow> int \<Rightarrow> int \<Rightarrow> int \<Rightarrow> rune list list \<Rightarrow> (panic + rune list list) option" where
  "chunk_loop words chunkSize overlap i chunks =
     (if i < int (length words)
      then (let end = wrap64 (i + chunkSize);
                end = (if end > int (length words) then int (length words) else end)
            in if i < 0 \<or> end < i then Some (Inl SliceBoundsOutOfRange)
               else (let chunk = Join (take (nat end - nat i) (drop (nat i) words)) [32];
                         chunks = chunks @ [chunk]
                     in if end \<ge> int (length words) then Some (Inr chunks)
                        else chunk_loop words chunkSize overlap
                               (wrap64 (i + wrap64 (chunkSize - overlap))) chunks))
      else Some (Inr chunks))"

declare chunk_loop.simps [code]

definition ChunkText :: "rune list \<Rightarrow> int \<Rightarrow> int \<Rightarrow> (panic + rune list list) option" where
  "ChunkText text chunkSize overlap =
     (let text = TrimSpace text;
          text = collapse_spaces text;
          words = Fields text
      in if length words = 0 then Some (Inr [])
         else chunk_loop words chunkSize overlap 0 [])"

section \<open>Notions of the specification\<close>

subsection \<open>Ranking\<close>





text \<open>A store of three unit vectors and a provider that answers \<open>[1, 0]\<close>.\<close>

definition example_doc :: "string \<Rightarrow> real list \<Rightarrow> real EmbeddingDocument" where
  "example_doc name v =
     \<lparr>ID = name, Content = name, URL = [], Title = [], Embedding = v, Depth = 0\<rparr>"

definition example_store :: "real EmbeddingStore" where
  "example_store =
     \<lparr>Documents = [example_doc ''d1'' [3/5, 4/5], example_doc ''d2'' [0, 1],
                   example_doc ''d3'' [4/5, 3/5]],
      LastUpdated = [], filePath = ''embeddings.json'',
      provider = Some (\<lambda>text. Inr [1, 0])\<rparr>"

subsection \<open>Chunking\<close>

text \<open>
  The \<open>k\<close>-th window of \<open>width\<close> words, the windows advancing by \<open>step\<close> words; the
  last window is the first one that reaches the end of the words, so there are
  \<open>window_count\<close> of them: one more than the least \<open>k\<close> with \<open>len \<le> k * step + width\<close>.
\<close>

definition window :: "rune list list \<Rightarrow> nat \<Rightarrow> nat \<Rightarrow> nat \<Rightarrow> rune list" where
  "window words width step k = Join (take width (drop (k * step) words)) [32]"

definition window_count :: "nat \<Rightarrow> nat \<Rightarrow> nat \<Rightarrow> nat" where
  "window_count len width step = (len - width + (step - 1)) div step + 1"

definition windows :: "rune list list \<Rightarrow> nat \<Rightarrow> nat \<Rightarrow> rune list list" where
  "windows words width step =
     (if words = [] then []
      else map (window words width step) [0..<window_count (length words) width step])"

text \<open>The loop state that repeats: a step of zero before the first window reaches the end.\<close>

definition zero_step :: "rune list list \<Rightarrow> int \<Rightarrow> int \<Rightarrow> int \<Rightarrow> bool" where
  "zero_step words chunkSize overlap i =
     (i = 0 \<and> overlap = chunkSize \<and> 0 < chunkSize \<and> chunkSize < int (length words)
      \<and> int (length words) < 2 ^ 63)"

subsection \<open>Normalisation\<close>

text \<open>
  The L2 norm of a vector, on the reals: the square root of the sum of the squares.
\<close>

definition euclidean_norm :: "real list \<Rightarrow> real" where
  "euclidean_norm v = sqrt (sum_list (map (\<lambda>x. x * x) v))"

text \<open>
  Real arithmetic with the one trait of float32 that the normaliser meets on small
  inputs: a product of magnitude at most \<open>2^-150\<close>, half the least positive float32,
  rounds to zero (round to nearest, ties to even). It shows that the conditions of the
  theorem on underflow can hold of a vector that is not zero.
\<close>

definition underflow_ops :: "real float32_ops" where
  "underflow_ops =
     real_ops\<lparr>f_mul := (\<lambda>a b. if \<bar>a * b\<bar> \<le> 1 / 2 ^ 150 then 0 else a * b)\<rparr>"

subsection \<open>Persistence and staleness\<close>

text \<open>The errors the spec files under PersistenceError: the file read, parsed or written.\<close>

definition PersistenceError :: "error \<Rightarrow> bool" where
  "PersistenceError e =
     (case e of
        ReadFileFailed msg \<Rightarrow> True
      | UnmarshalFailed msg \<Rightarrow> True
      | MarshalFailed msg \<Rightarrow> True
      | WriteFileFailed msg \<Rightarrow> True
      | _ \<Rightarrow> False)"

text \<open>
  Staleness in the spec's words: never saved, or a timestamp that does not parse, or more
  time elapsed since the timestamp than \<open>maxAgeDays\<close> times 24 hours.
\<close>

definition stale_spec :: "(string \<Rightarrow> int option) \<Rightarrow> int \<Rightarrow> 'f EmbeddingStore \<Rightarrow> int \<Rightarrow> bool" where
  "stale_spec parse now es maxAgeDays =
     (LastUpdated es = [] \<or>
      (case parse (LastUpdated es) of
         None \<Rightarrow> True
       | Some lastUpdate \<Rightarrow> now - lastUpdate > maxAgeDays * (24 * Hour)))"

text \<open>The example store as saved at an instant that \<open>parse\<close> below reads as 0.\<close>

definition stamped_store :: "real EmbeddingStore" where
  "stamped_store = example_store\<lparr>LastUpdated := ''2026-01-01T00:00:00Z''\<rparr>"

section \<open>Properties\<close>

subsection \<open>The ranking loops\<close>


lemma length_sort_inner [simp]: "length (sort_inner ops i j results) = length results"
proof (induction ops i j results rule: sort_inner.induct)
  case (1 ops i j results)
  then show ?case
    by (subst sort_inner.simps) (simp add: swap_results_def)
qed



lemma length_swap_results [simp]: "length (swap_results i j results) = length results"
  by (simp add: swap_results_def)












subsection \<open>Search\<close>





text \<open>
  C3. On a store with no document Search returns the empty result and no error, whatever
  the query, \<open>topK\<close>, the threshold and the provider: the provider is not consulted.
\<close>

theorem Search_empty_store:
  "Documents es = [] \<Longrightarrow> Search ops es query topK threshold = Inr []"
  by (simp add: Search_def)

theorem Search_empty_store_witness:
  "Documents (Clear example_store\<lparr>provider := None\<rparr>) = []
   \<and> Search real_ops (Clear example_store\<lparr>provider := None\<rparr>) ''q'' 5 0 = Inr []
   \<and> Documents (Clear example_store\<lparr>provider := Some (\<lambda>text. Inl (ProviderFailed ''down''))\<rparr>) = []
   \<and> Search real_ops (Clear example_store\<lparr>provider := Some (\<lambda>text. Inl (ProviderFailed ''down''))\<rparr>)
        ''q'' 5 0 = Inr []"
proof -
  have h1: "Documents (Clear example_store\<lparr>provider := None\<rparr>) = []"
    by (simp add: Clear_def)
  have h2: "Documents (Clear example_store\<lparr>provider := Some (\<lambda>text. Inl (ProviderFailed ''down''))\<rparr>) = []"
    by (simp add: Clear_def)
  show ?thesis
    using h1 h2 Search_empty_store [OF h1, of real_ops "''q''" 5 0]
      Search_empty_store [OF h2, of real_ops "''q''" 5 0]
    by (intro conjI)
qed

subsection \<open>CosineSimilarity\<close>

text \<open>
  C2. For vectors of differing lengths the similarity is exactly zero, whatever they hold.
  CosineSimilarity has no error result, and it reads no element on this path.
\<close>

theorem CosineSimilarity_length_mismatch:
  "length a \<noteq> length b \<Longrightarrow> CosineSimilarity ops a b = f_zero ops"
  by (simp add: CosineSimilarity_def)

theorem CosineSimilarity_length_mismatch_witness:
  "length [1, 2 :: real] \<noteq> length [3 :: real] \<and> CosineSimilarity real_ops [1, 2] [3] = 0"
  using CosineSimilarity_length_mismatch [of "[1, 2 :: real]" "[3]" real_ops]
  by (simp add: real_ops_def)

subsection \<open>AddDocument\<close>

text \<open>
  C10. AddDocument yields the previous documents with the new one appended at the end:
  one document more, the earlier ones as they were and where they were. The timestamp,
  the file path and the provider stay, so the answer of IsStale stays; Save is what sets
  the timestamp.
\<close>

theorem AddDocument_appends:
  "Documents (AddDocument es doc) = Documents es @ [doc]
   \<and> length (Documents (AddDocument es doc)) = length (Documents es) + 1
   \<and> take (length (Documents es)) (Documents (AddDocument es doc)) = Documents es
   \<and> LastUpdated (AddDocument es doc) = LastUpdated es
   \<and> filePath (AddDocument es doc) = filePath es
   \<and> provider (AddDocument es doc) = provider es
   \<and> IsStale parse now (AddDocument es doc) days = IsStale parse now es days
   \<and> LastUpdated (snd (Save stamp marshal writeFile es)) = stamp"
  by (simp add: AddDocument_def IsStale_def Save_def Let_def split: sum.splits option.splits)

subsection \<open>NormalizeEmbedding\<close>

text \<open>
  What the claim has right: the zero vector comes back as it is, with no division.
  (\<open>0 * 0\<close>, \<open>0 + 0\<close> and \<open>sqrt 0\<close> are \<open>0\<close>, and \<open>0 == 0\<close>, in IEEE-754.)
\<close>

lemma NormalizeEmbedding_zero_vector:
  assumes "f_mul ops (f_zero ops) (f_zero ops) = f_zero ops"
    and "f_add ops (f_zero ops) (f_zero ops) = f_zero ops"
    and "f_sqrt ops (f_zero ops) = f_zero ops"
    and "f_eq ops (f_zero ops) (f_zero ops)"
  shows "NormalizeEmbedding ops [f_zero ops, f_zero ops, f_zero ops]
           = [f_zero ops, f_zero ops, f_zero ops]"
  using assms by (simp add: NormalizeEmbedding_def Let_def)

text \<open>
  C4. The claim is for every vector: unchanged when its L2 norm is zero, divided by its
  L2 norm otherwise. The code tests the norm it computes, and it sums the squares in
  float32: when the square of a component underflows to zero the sum is zero, the
  computed norm is zero, and the vector comes back unchanged although its L2 norm is
  not zero. So it is for \<^verbatim>\<open>[]float32{0x1p-80, 0}\<close>: \<open>2^-80 * 2^-80 = 2^-160\<close> is below half
  the least positive float32 and rounds to zero; the code returns \<open>[2^-80, 0]\<close>, the
  claim asks for \<open>[1, 0]\<close>. The theorem holds of any arithmetic in which the square is
  zero; the witness runs it where products underflow as in float32.
\<close>

theorem NormalizeEmbedding_square_underflow:
  assumes "f_mul ops x x = f_zero ops"
    and "f_mul ops (f_zero ops) (f_zero ops) = f_zero ops"
    and "f_add ops (f_zero ops) (f_zero ops) = f_zero ops"
    and "f_sqrt ops (f_zero ops) = f_zero ops"
    and "f_eq ops (f_zero ops) (f_zero ops)"
  shows "NormalizeEmbedding ops [x, f_zero ops] = [x, f_zero ops]"
  using assms by (simp add: NormalizeEmbedding_def Let_def)

theorem NormalizeEmbedding_square_underflow_witness:
  "f_mul underflow_ops (1 / 2 ^ 80) (1 / 2 ^ 80) = f_zero underflow_ops
   \<and> f_mul underflow_ops (f_zero underflow_ops) (f_zero underflow_ops) = f_zero underflow_ops
   \<and> f_add underflow_ops (f_zero underflow_ops) (f_zero underflow_ops) = f_zero underflow_ops
   \<and> f_sqrt underflow_ops (f_zero underflow_ops) = f_zero underflow_ops
   \<and> f_eq underflow_ops (f_zero underflow_ops) (f_zero underflow_ops)
   \<and> f_zero underflow_ops = 0
   \<and> NormalizeEmbedding underflow_ops [1 / 2 ^ 80, 0] = [1 / 2 ^ 80, 0]
   \<and> euclidean_norm [1 / 2 ^ 80, 0] = 1 / 2 ^ 80
   \<and> euclidean_norm [1 / 2 ^ 80, 0] \<noteq> 0
   \<and> map (\<lambda>x. x / euclidean_norm [1 / 2 ^ 80, 0]) [1 / 2 ^ 80, 0] = [1, 0]
   \<and> NormalizeEmbedding underflow_ops [1 / 2 ^ 80, 0]
        \<noteq> map (\<lambda>x. x / euclidean_norm [1 / 2 ^ 80, 0]) [1 / 2 ^ 80, 0]"
proof -
  have h1: "f_mul underflow_ops (1 / 2 ^ 80) (1 / 2 ^ 80) = f_zero underflow_ops"
    by (simp add: underflow_ops_def real_ops_def)
  have h2: "f_mul underflow_ops (f_zero underflow_ops) (f_zero underflow_ops) = f_zero underflow_ops"
    and h3: "f_add underflow_ops (f_zero underflow_ops) (f_zero underflow_ops) = f_zero underflow_ops"
    and h4: "f_sqrt underflow_ops (f_zero underflow_ops) = f_zero underflow_ops"
    and h5: "f_eq underflow_ops (f_zero underflow_ops) (f_zero underflow_ops)"
    and z: "f_zero underflow_ops = 0"
    by (simp_all add: underflow_ops_def real_ops_def)
  have code: "NormalizeEmbedding underflow_ops [1 / 2 ^ 80, 0] = [1 / 2 ^ 80, 0]"
    using NormalizeEmbedding_square_underflow [OF h1 h2 h3 h4 h5] by (simp add: z)
  have "euclidean_norm [x, 0] = \<bar>x\<bar>" for x
    by (simp add: euclidean_norm_def)
  then have n: "euclidean_norm [1 / 2 ^ 80, 0] = 1 / 2 ^ 80"
    by simp
  then have claim: "map (\<lambda>x. x / euclidean_norm [1 / 2 ^ 80, 0]) [1 / 2 ^ 80, 0] = [1, 0]"
    by simp
  have ne: "euclidean_norm [1 / 2 ^ 80, 0] \<noteq> 0"
    unfolding n by simp
  have diff: "NormalizeEmbedding underflow_ops [1 / 2 ^ 80, 0]
        \<noteq> map (\<lambda>x. x / euclidean_norm [1 / 2 ^ 80, 0]) [1 / 2 ^ 80, 0]"
    unfolding code claim by simp
  show ?thesis
    using h1 h2 h3 h4 h5 z code n ne claim diff by (intro conjI)
qed

subsection \<open>Load\<close>

text \<open>
  C8. Load on a missing file reports no error and leaves the store as it was, so a store
  fresh from NewEmbeddingStore still has no document. A file that cannot be read for
  another reason, or whose content does not unmarshal, gives a PersistenceError. Among
  the failures of the read, the missing file is the only one that Load does not report.
\<close>

theorem Load_cold_start_and_failures:
  "(readFile (filePath es) = Inl ErrNotExist \<longrightarrow> Load readFile unmarshal es = (None, es))
   \<and> (NewEmbeddingStore path (Inr localProvider) prov = Inr fresh \<longrightarrow>
        readFile path = Inl ErrNotExist \<longrightarrow>
        fst (Load readFile unmarshal fresh) = None
        \<and> Documents (snd (Load readFile unmarshal fresh)) = [])
   \<and> (readFile (filePath es) = Inl (ErrRead msg) \<longrightarrow>
        Load readFile unmarshal es = (Some (ReadFileFailed msg), es)
        \<and> PersistenceError (ReadFileFailed msg))
   \<and> (readFile (filePath es) = Inr data \<longrightarrow>
        fst (unmarshal data (Documents es, LastUpdated es)) = Some msg \<longrightarrow>
        fst (Load readFile unmarshal es) = Some (UnmarshalFailed msg)
        \<and> PersistenceError (UnmarshalFailed msg))
   \<and> (readFile (filePath es) = Inl err \<longrightarrow>
        (fst (Load readFile unmarshal es) = None) = (err = ErrNotExist))"
proof (intro conjI impI)
  assume "readFile (filePath es) = Inl ErrNotExist"
  then show "Load readFile unmarshal es = (None, es)"
    by (simp add: Load_def)
next
  assume "NewEmbeddingStore path (Inr localProvider) prov = Inr fresh"
    and "readFile path = Inl ErrNotExist"
  then have "filePath fresh = path" "Documents fresh = []"
    "readFile (filePath fresh) = Inl ErrNotExist"
    by (auto simp: NewEmbeddingStore_def)
  then show "fst (Load readFile unmarshal fresh) = None"
    and "Documents (snd (Load readFile unmarshal fresh)) = []"
    by (simp_all add: Load_def)
next
  assume "readFile (filePath es) = Inl (ErrRead msg)"
  then show "Load readFile unmarshal es = (Some (ReadFileFailed msg), es)"
    by (simp add: Load_def)
next
  show "PersistenceError (ReadFileFailed msg)" by (simp add: PersistenceError_def)
next
  assume "readFile (filePath es) = Inr data"
    and "fst (unmarshal data (Documents es, LastUpdated es)) = Some msg"
  then show "fst (Load readFile unmarshal es) = Some (UnmarshalFailed msg)"
    by (cases "unmarshal data (Documents es, LastUpdated es)") (auto simp: Load_def)
next
  show "PersistenceError (UnmarshalFailed msg)" by (simp add: PersistenceError_def)
next
  assume "readFile (filePath es) = Inl err"
  then show "(fst (Load readFile unmarshal es) = None) = (err = ErrNotExist)"
    by (cases err) (simp_all add: Load_def)
qed

theorem Load_cold_start_and_failures_witness:
  "Load (\<lambda>path. Inl ErrNotExist) (\<lambda>data st. (None, st)) example_store = (None, example_store)
   \<and> NewEmbeddingStore ''embeddings.json'' (Inr (\<lambda>text. Inr [1, 0])) None = Inr (Clear example_store)
   \<and> fst (Load (\<lambda>path. Inl ErrNotExist) (\<lambda>data st. (None, st)) (Clear example_store)) = None
   \<and> Documents (snd (Load (\<lambda>path. Inl ErrNotExist) (\<lambda>data st. (None, st)) (Clear example_store))) = []
   \<and> Load (\<lambda>path. Inl (ErrRead ''permission denied'')) (\<lambda>data st. (None, st)) example_store
        = (Some (ReadFileFailed ''permission denied''), example_store)
   \<and> fst (Load (\<lambda>path. Inr ''{'') (\<lambda>data st. (Some ''unexpected end of JSON input'', st))
             example_store)
        = Some (UnmarshalFailed ''unexpected end of JSON input'')
   \<and> fst (Load (\<lambda>path. Inr ''{}'') (\<lambda>data st. (None, st)) example_store) = None"
proof -
  have fresh: "NewEmbeddingStore ''embeddings.json'' (Inr (\<lambda>text. Inr [1, 0])) None
      = Inr (Clear example_store :: real EmbeddingStore)"
    by (simp add: NewEmbeddingStore_def Clear_def example_store_def)
  have ok: "fst (Load (\<lambda>path. Inr ''{}'') (\<lambda>data st. (None, st)) example_store) = None"
    by (simp add: Load_def)
  show ?thesis
    using fresh ok
      Load_cold_start_and_failures [of "\<lambda>path. Inl ErrNotExist" example_store
        "\<lambda>data st. (None, st)" "''embeddings.json''" "\<lambda>text. Inr [1, 0]" None
        "Clear example_store"]
      Load_cold_start_and_failures [of "\<lambda>path. Inl (ErrRead ''permission denied'')" example_store
        "\<lambda>data st. (None, st)" _ _ _ _ "''permission denied''"]
      Load_cold_start_and_failures [of "\<lambda>path. Inr ''{''" example_store
        "\<lambda>data st. (Some ''unexpected end of JSON input'', st)" _ _ _ _
        "''unexpected end of JSON input''" "''{''"]
    by simp
qed

subsection \<open>IsStale\<close>

lemma wrap64_id_signed: "- (2 ^ 63) \<le> x \<Longrightarrow> x < 2 ^ 63 \<Longrightarrow> wrap64 x = x"
  by (simp add: wrap64_def)

text \<open>
  Where the threshold fits a Duration, IsStale is staleness as the spec words it; the
  saturation of \<^verbatim>\<open>time.Since\<close> does not show.
\<close>

lemma IsStale_within_range:
  assumes "- 106751 \<le> days" "days \<le> 106751"
  shows "IsStale parse now es days = stale_spec parse now es days"
proof -
  have w1: "wrap64 (days * 24) = days * 24"
    using assms by (intro wrap64_id_signed) simp_all
  have w2: "wrap64 (days * 24 * Hour) = days * (24 * Hour)"
    using assms by (simp add: wrap64_id_signed Hour_def)
  have r: "minDuration < days * (24 * Hour)" "days * (24 * Hour) < maxDuration"
    using assms by (simp_all add: Hour_def minDuration_def maxDuration_def)
  show ?thesis
    using r
    by (auto simp: IsStale_def stale_spec_def w1 w2 Since_def Let_def split: option.splits)
qed

text \<open>
  C7. The claim is for every \<open>maxAgeDays\<close>. At 106752 days the product
  \<^verbatim>\<open>time.Duration(days) * 24 * time.Hour\<close> leaves the 64-bit range and wraps to a negative
  threshold: a store saved one hour ago is reported stale, although one hour does not
  exceed 106752 days.
\<close>

theorem IsStale_threshold_overflow:
  "IsStale (\<lambda>s. Some 0) Hour stamped_store 106752
   \<and> \<not> stale_spec (\<lambda>s. Some 0) Hour stamped_store 106752"
  by (simp add: IsStale_def stale_spec_def stamped_store_def Since_def wrap64_def Hour_def
      minDuration_def maxDuration_def Let_def)


subsection \<open>ChunkText: a step of zero\<close>

text \<open>
  With \<open>overlap = chunkSize\<close> the index stays at 0. Unless the first window already
  reaches the end of the words, the loop is back in the state it started from, with one
  more chunk appended: no run of it returns.
\<close>

lemma chunk_loop_zero_step:
  assumes "chunk_loop words chunkSize overlap i chunks = Some y"
  shows "\<not> zero_step words chunkSize overlap i"
proof (rule chunk_loop.raw_induct
    [where P = "\<lambda>words chunkSize overlap i chunks y. \<not> zero_step words chunkSize overlap i",
      OF _ assms])
  fix f :: "rune list list \<Rightarrow> int \<Rightarrow> int \<Rightarrow> int \<Rightarrow> rune list list
              \<Rightarrow> (panic + rune list list) option"
    and words chunkSize overlap i chunks y
  assume IH: "\<And>words chunkSize overlap i chunks y.
      f words chunkSize overlap i chunks = Some y \<Longrightarrow> \<not> zero_step words chunkSize overlap i"
  assume body: "(if i < int (length words)
      then (let end = wrap64 (i + chunkSize);
                end = (if end > int (length words) then int (length words) else end)
            in if i < 0 \<or> end < i then Some (Inl SliceBoundsOutOfRange)
               else (let chunk = Join (take (nat end - nat i) (drop (nat i) words)) [32];
                         chunks = chunks @ [chunk]
                     in if end \<ge> int (length words) then Some (Inr chunks)
                        else f words chunkSize overlap
                               (wrap64 (i + wrap64 (chunkSize - overlap))) chunks))
      else Some (Inr chunks)) = Some y"
  show "\<not> zero_step words chunkSize overlap i"
  proof
    assume a: "zero_step words chunkSize overlap i"
    then have w: "wrap64 chunkSize = chunkSize" "wrap64 0 = 0"
      by (simp_all add: wrap64_def zero_step_def)
    from a w body
    have "f words chunkSize overlap 0 (chunks @ [Join (take (nat chunkSize) words) [32]]) = Some y"
      by (simp add: Let_def zero_step_def split: if_splits)
    from IH [OF this] a show False by (simp add: zero_step_def)
  qed
qed

lemma chunk_loop_zero_step_None:
  "zero_step words chunkSize overlap i \<Longrightarrow> chunk_loop words chunkSize overlap i chunks = None"
  using chunk_loop_zero_step [of words chunkSize overlap i chunks]
  by (cases "chunk_loop words chunkSize overlap i chunks") auto

text \<open>
  C5. The claim asks that ChunkText terminate when \<open>overlap \<ge> chunkSize\<close>, by rejecting
  the parameters or by clamping the step. The code has neither guard: on the four words
  \<open>a b c d\<close> with \<open>chunkSize = 3\<close> and \<open>overlap = 3\<close> it never returns.
\<close>

theorem ChunkText_equal_overlap_never_returns:
  "ChunkText (runes ''a b c d'') 3 3 = None"
proof -
  have w: "Fields (collapse_spaces (TrimSpace (runes ''a b c d'')))
      = [runes ''a'', runes ''b'', runes ''c'', runes ''d'']"
    by (simp add: runes_def TrimSpace_def IsSpace_def re_space_def Fields_def)
  have "zero_step [runes ''a'', runes ''b'', runes ''c'', runes ''d''] 3 3 0"
    by (simp add: zero_step_def)
  then have "chunk_loop [runes ''a'', runes ''b'', runes ''c'', runes ''d''] 3 3 0 [] = None"
    by (rule chunk_loop_zero_step_None)
  then show ?thesis
    by (simp add: ChunkText_def w Let_def)
qed


subsection \<open>ChunkText: the windows\<close>

lemma wrap64_id: "0 \<le> x \<Longrightarrow> x < 2 ^ 63 \<Longrightarrow> wrap64 x = x"
  by (simp add: wrap64_def)

lemma window_count_le_iff:
  assumes "0 < step"
  shows "window_count len width step \<le> k + 1 \<longleftrightarrow> len \<le> k * step + width"
proof -
  have "(len - width + (step - 1)) div step < k + 1 \<longleftrightarrow> len - width + (step - 1) < (k + 1) * step"
    using assms by (rule div_less_iff_less_mult)
  also have "\<dots> \<longleftrightarrow> len \<le> k * step + width"
    using assms by auto
  finally show ?thesis by (simp add: window_count_def less_Suc_eq_le)
qed

lemma window_count_pos: "0 < window_count len width step"
  by (simp add: window_count_def)

lemma chunk_loop_step:
  assumes i: "i < length words" and no_ovf: "int i + int wd < 2 ^ 63" and st: "0 < st" "st \<le> wd"
  shows "chunk_loop words (int wd) (int wd - int st) (int i) chunks =
     (if length words \<le> i + wd
      then Some (Inr (chunks @ [Join (take wd (drop i words)) [32]]))
      else chunk_loop words (int wd) (int wd - int st) (int (i + st))
             (chunks @ [Join (take wd (drop i words)) [32]]))"
proof -
  have w1: "wrap64 (int i + int wd) = int (i + wd)"
    using no_ovf by (simp add: wrap64_id)
  have "int st < 2 ^ 63" "int i + int st < 2 ^ 63"
    using no_ovf st by linarith+
  then have w2: "wrap64 (int wd - (int wd - int st)) = int st"
    and w3: "wrap64 (int i + int st) = int (i + st)"
    by (simp_all add: wrap64_id)
  have slice: "take (nat (if int (length words) < int (i + wd) then int (length words) else int (i + wd)) - i)
                 (drop i words) = take wd (drop i words)"
    using i by (auto simp del: of_nat_add)
  have ends: "(int (length words) \<le> (if int (length words) < int (i + wd) then int (length words) else int (i + wd)))
      = (length words \<le> i + wd)"
    by auto
  show ?thesis
    using i
    apply (subst chunk_loop.simps)
    apply (simp only: w1 w2 w3 Let_def)
    apply (simp only: slice ends nat_int of_nat_less_iff of_nat_less_0_iff if_True if_False simp_thms)
    apply (simp del: of_nat_add)
    done
qed

lemma chunk_loop_windows:
  assumes st: "0 < st" "st \<le> wd" and wd: "int wd < 2 ^ 63"
    and len: "int (length words) \<le> 2 ^ 62"
    and ne: "words \<noteq> []"
    and k: "k < window_count (length words) wd st"
  shows "chunk_loop words (int wd) (int wd - int st) (int (k * st)) chunks =
     Some (Inr (chunks @ map (window words wd st) [k..<window_count (length words) wd st]))"
  using k
proof (induction "window_count (length words) wd st - k" arbitrary: k chunks)
  case 0
  then show ?case by simp
next
  case (Suc m)
  let ?n = "window_count (length words) wd st"
  have reach: "wd < length words" "j * st + wd < length words" if "k = Suc j" for j
  proof -
    have "\<not> ?n \<le> j + 1" using Suc.prems that by simp
    then show "j * st + wd < length words"
      using window_count_le_iff [OF st(1), of "length words" wd j] by simp
    then show "wd < length words" by linarith
  qed
  have i_lt: "k * st < length words"
  proof (cases k)
    case 0
    then show ?thesis using ne by simp
  next
    case (Suc j)
    then show ?thesis using reach(2) [OF Suc] st(2) by simp
  qed
  have no_ovf: "int (k * st) + int wd < 2 ^ 63"
  proof (cases k)
    case 0
    then show ?thesis using wd by simp
  next
    case (Suc j)
    have "int wd < int (length words)" using reach(1) [OF Suc] by linarith
    moreover have "int (k * st) < int (length words)" using i_lt by linarith
    moreover have "(2::int) ^ 63 = 2 * 2 ^ 62" by simp
    ultimately show ?thesis using len by linarith
  qed
  note step = chunk_loop_step [OF i_lt no_ovf st, of chunks]
  show ?case
  proof (cases "length words \<le> k * st + wd")
    case True
    then have "?n \<le> k + 1" using window_count_le_iff [OF st(1)] by simp
    then have n: "?n = k + 1" using Suc.prems by simp
    show ?thesis using True by (simp add: step n window_def del: of_nat_mult of_nat_add)
  next
    case False
    then have n: "k + 1 < ?n"
      using window_count_le_iff [OF st(1), of "length words" wd k] by simp
    have m: "m = ?n - (k + 1)" using Suc.hyps(2) by simp
    have "chunk_loop words (int wd) (int wd - int st) (int (k * st)) chunks
        = chunk_loop words (int wd) (int wd - int st) (int ((k + 1) * st))
            (chunks @ [window words wd st k])"
      using False by (simp add: step window_def add.commute del: of_nat_mult of_nat_add)
    also have "\<dots> = Some (Inr ((chunks @ [window words wd st k])
        @ map (window words wd st) [k + 1..<?n]))"
      using Suc.hyps(1) [OF m] n by simp
    also have "(chunks @ [window words wd st k]) @ map (window words wd st) [k + 1..<?n]
        = chunks @ map (window words wd st) [k..<?n]"
      using n by (simp add: upt_conv_Cons)
    finally show ?thesis .
  qed
qed


lemma fields_from_spaces:
  "\<forall>r \<in> set sp. IsSpace r \<Longrightarrow> fields_from field sp = (if field = [] then [] else [field])"
  by (induction sp arbitrary: field) auto

lemma fields_from_append_spaces:
  "\<forall>r \<in> set sp. IsSpace r \<Longrightarrow> fields_from field (s @ sp) = fields_from field s"
  by (induction s arbitrary: field) (auto simp: fields_from_spaces)

lemma fields_from_dropWhile:
  "(\<And>r. P r \<Longrightarrow> IsSpace r) \<Longrightarrow> fields_from [] (dropWhile P s) = fields_from [] s"
  by (induction s) auto

lemma re_space_IsSpace: "re_space r \<Longrightarrow> IsSpace r"
  by (auto simp: re_space_def IsSpace_def)

lemma IsSpace_32: "IsSpace 32"
  by (simp add: IsSpace_def)

lemma fields_from_collapse_spaces:
  "fields_from field (collapse_spaces s) = fields_from field s"
proof (induction s arbitrary: field rule: collapse_spaces.induct)
  case 1
  then show ?case by simp
next
  case (2 r rs)
  show ?case
  proof (cases "re_space r")
    case True
    have "fields_from [] (collapse_spaces (dropWhile re_space rs)) = fields_from [] rs"
      using 2(1) [OF True, of "[]"] fields_from_dropWhile [of re_space rs] re_space_IsSpace
      by simp
    then show ?thesis using True re_space_IsSpace [OF True] by (simp add: IsSpace_32)
  next
    case False
    then show ?thesis using 2(2) by simp
  qed
qed

lemma fields_from_TrimSpace: "fields_from [] (TrimSpace s) = fields_from [] s"
proof -
  let ?t = "dropWhile IsSpace s"
  have "?t = rev (dropWhile IsSpace (rev ?t)) @ rev (takeWhile IsSpace (rev ?t))"
    by (metis rev_append rev_rev_ident takeWhile_dropWhile_id)
  moreover have "\<forall>r \<in> set (rev (takeWhile IsSpace (rev ?t))). IsSpace r"
    by (auto dest: set_takeWhileD)
  ultimately have "fields_from [] ?t = fields_from [] (rev (dropWhile IsSpace (rev ?t)))"
    by (metis fields_from_append_spaces)
  then show ?thesis
    by (simp add: TrimSpace_def fields_from_dropWhile)
qed

lemma Fields_preprocessed: "Fields (collapse_spaces (TrimSpace text)) = Fields text"
  by (simp add: Fields_def fields_from_collapse_spaces fields_from_TrimSpace)

lemma length_fields_from:
  "length (fields_from field s) \<le> (length s + (if field = [] then 1 else 2)) div 2"
proof (induction s arbitrary: field)
  case Nil
  then show ?case by simp
next
  case (Cons r rs)
  have a: "length (fields_from [] rs) \<le> (length rs + 1) div 2"
    using Cons [of "[]"] by simp
  have b: "length (fields_from (field @ [r]) rs) \<le> (length rs + 2) div 2"
    using Cons [of "field @ [r]"] by simp
  consider "IsSpace r" "field = []" | "IsSpace r" "field \<noteq> []" | "\<not> IsSpace r"
    by blast
  then show ?case
  proof cases
    case 1
    then have "length (fields_from field (r # rs)) = length (fields_from [] rs)" by simp
    with a 1 show ?thesis by simp
  next
    case 2
    then have "length (fields_from field (r # rs)) = Suc (length (fields_from [] rs))" by simp
    with a 2 show ?thesis by simp
  next
    case 3
    then have "length (fields_from field (r # rs)) = length (fields_from (field @ [r]) rs)"
      by simp
    with b show ?thesis by (cases "field = []") simp_all
  qed
qed

lemma length_Fields: "length (Fields s) \<le> (length s + 1) div 2"
  using length_fields_from [of "[]" s] by (simp add: Fields_def)

lemma fields_from_words:
  "(\<forall>r \<in> set field. \<not> IsSpace r) \<Longrightarrow> w \<in> set (fields_from field s) \<Longrightarrow>
     w \<noteq> [] \<and> (\<forall>r \<in> set w. \<not> IsSpace r)"
proof (induction s arbitrary: field)
  case Nil
  then show ?case by (cases "field = []") auto
next
  case (Cons r rs)
  show ?case
  proof (cases "IsSpace r")
    case True
    show ?thesis
    proof (cases "w = field \<and> field \<noteq> []")
      case True
      then show ?thesis using Cons.prems(1) by blast
    next
      case False
      then have "w \<in> set (fields_from [] rs)"
        using Cons.prems(2) \<open>IsSpace r\<close> by (cases "field = []") auto
      then show ?thesis using Cons.IH [of "[]"] by simp
    qed
  next
    case False
    then have "w \<in> set (fields_from (field @ [r]) rs)"
      using Cons.prems(2) by simp
    moreover have "\<forall>x \<in> set (field @ [r]). \<not> IsSpace x"
      using Cons.prems(1) False by simp
    ultimately show ?thesis by (rule Cons.IH [rotated])
  qed
qed

lemma Fields_words: "w \<in> set (Fields s) \<Longrightarrow> w \<noteq> [] \<and> (\<forall>r \<in> set w. \<not> IsSpace r)"
  using fields_from_words [of "[]" w s] by (simp add: Fields_def)

lemma concat_fields_from:
  "concat (fields_from field s) = field @ filter (\<lambda>r. \<not> IsSpace r) s"
  by (induction s arbitrary: field) auto


lemma concat_Fields: "concat (Fields s) = filter (\<lambda>r. \<not> IsSpace r) s"
  by (simp add: Fields_def concat_fields_from)

lemma Fields_spaces: "\<forall>r \<in> set s. IsSpace r \<Longrightarrow> Fields s = []"
  by (simp add: Fields_def fields_from_spaces)

lemma chunk_loop_Fields:
  assumes "0 \<le> overlap" and "overlap < chunkSize" and "chunkSize < 2 ^ 63"
    and "int (length s) < 2 ^ 63" and ne: "Fields s \<noteq> []"
  shows "chunk_loop (Fields s) chunkSize overlap 0 []
           = Some (Inr (windows (Fields s) (nat chunkSize) (nat (chunkSize - overlap))))"
proof -
  let ?wd = "nat chunkSize" and ?st = "nat (chunkSize - overlap)"
  have st: "0 < ?st" "?st \<le> ?wd" using assms by simp_all
  have wd: "int ?wd < 2 ^ 63" using assms by simp
  have "int (length (Fields s)) \<le> int ((length s + 1) div 2)"
    using length_Fields [of s] by linarith
  also have "\<dots> \<le> 2 ^ 62" using assms(4) by simp
  finally have len: "int (length (Fields s)) \<le> 2 ^ 62" .
  have "chunk_loop (Fields s) (int ?wd) (int ?wd - int ?st) (int (0 * ?st)) []
      = Some (Inr ([] @ map (window (Fields s) ?wd ?st)
                          [0..<window_count (length (Fields s)) ?wd ?st]))"
    using st wd len ne by (intro chunk_loop_windows) (simp_all add: window_count_pos)
  moreover have "int ?wd = chunkSize" "int ?wd - int ?st = overlap"
    using assms by simp_all
  ultimately show ?thesis
    using ne by (simp add: windows_def)
qed

text \<open>
  C6. For \<open>0 \<le> overlap < chunkSize\<close> ChunkText returns, and what it returns are the
  windows over the words of the text: the words are the maximal runs of runes that are no
  white space (none is empty, none holds a space, together they are the text without
  its white space), so runs of white space and the ends of the text leave no trace; the
  \<open>k\<close>-th chunk joins, with single spaces, the \<open>chunkSize\<close> words from word
  \<open>k * (chunkSize - overlap)\<close> on, or what is left of them; the last chunk is the
  first window that reaches the end of the words. A text of white space only, the empty
  text among them, gives no chunk and no error. \<open>chunkSize\<close> is a Go \<^verbatim>\<open>int\<close> and the
  text a Go string, hence the bounds. The witness is the spec's example.
\<close>

theorem ChunkText_windows:
  assumes "0 \<le> overlap" and "overlap < chunkSize" and "chunkSize < 2 ^ 63"
    and "int (length s) < 2 ^ 63"
  shows "ChunkText s chunkSize overlap
           = Some (Inr (windows (Fields s) (nat chunkSize) (nat (chunkSize - overlap))))
    \<and> (\<forall>w \<in> set (Fields s). w \<noteq> [] \<and> (\<forall>r \<in> set w. \<not> IsSpace r))
    \<and> concat (Fields s) = filter (\<lambda>r. \<not> IsSpace r) s
    \<and> (\<forall>k. (window_count (length (Fields s)) (nat chunkSize) (nat (chunkSize - overlap)) \<le> k + 1)
            = (length (Fields s) \<le> k * nat (chunkSize - overlap) + nat chunkSize))
    \<and> ((\<forall>r \<in> set s. IsSpace r) \<longrightarrow> ChunkText s chunkSize overlap = Some (Inr []))"
proof (intro conjI ballI allI impI)
  show "ChunkText s chunkSize overlap
           = Some (Inr (windows (Fields s) (nat chunkSize) (nat (chunkSize - overlap))))"
  proof (cases "Fields s = []")
    case True
    then show ?thesis by (simp add: ChunkText_def Fields_preprocessed windows_def)
  next
    case False
    then show ?thesis
      using chunk_loop_Fields [OF assms False]
      by (simp add: ChunkText_def Fields_preprocessed)
  qed
next
  fix w assume "w \<in> set (Fields s)"
  then show "w \<noteq> []" and "\<And>r. r \<in> set w \<Longrightarrow> \<not> IsSpace r"
    using Fields_words [of w s] by auto
next
  show "concat (Fields s) = filter (\<lambda>r. \<not> IsSpace r) s" by (rule concat_Fields)
next
  fix k
  show "(window_count (length (Fields s)) (nat chunkSize) (nat (chunkSize - overlap)) \<le> k + 1)
            = (length (Fields s) \<le> k * nat (chunkSize - overlap) + nat chunkSize)"
    using assms(2) by (intro window_count_le_iff) simp
next
  assume "\<forall>r \<in> set s. IsSpace r"
  then have "Fields s = []" by (rule Fields_spaces)
  then show "ChunkText s chunkSize overlap = Some (Inr [])"
    by (simp add: ChunkText_def Fields_preprocessed)
qed

theorem ChunkText_windows_witness:
  "(0::int) \<le> 1 \<and> (1::int) < 3 \<and> (3::int) < 2 ^ 63
   \<and> int (length (runes ''a b  c d e '')) < 2 ^ 63
   \<and> Fields (runes ''a b  c d e '') = [runes ''a'', runes ''b'', runes ''c'', runes ''d'', runes ''e'']
   \<and> ChunkText (runes ''a b  c d e '') 3 1 = Some (Inr [runes ''a b c'', runes ''c d e''])
   \<and> ChunkText (runes ''a b c d e'') 3 1 = Some (Inr [runes ''a b c'', runes ''c d e''])
   \<and> ChunkText (runes []) 3 1 = Some (Inr [])
   \<and> ChunkText (runes ''   '') 3 1 = Some (Inr [])"
proof -
  have f1: "Fields (runes ''a b  c d e '') = [runes ''a'', runes ''b'', runes ''c'', runes ''d'', runes ''e'']"
    by (simp add: Fields_def runes_def IsSpace_def)
  have f2: "Fields (runes ''a b c d e'') = [runes ''a'', runes ''b'', runes ''c'', runes ''d'', runes ''e'']"
    by (simp add: Fields_def runes_def IsSpace_def)
  have w: "windows [runes ''a'', runes ''b'', runes ''c'', runes ''d'', runes ''e''] 3 2
      = [runes ''a b c'', runes ''c d e'']"
    by (simp add: windows_def window_count_def window_def runes_def upt_rec)
  have a: "(0::int) \<le> 1" "(1::int) < 3" "(3::int) < 2 ^ 63"
    by simp_all
  have len: "int (length (runes ''a b  c d e '')) < 2 ^ 63" "int (length (runes ''a b c d e'')) < 2 ^ 63"
    "int (length (runes [])) < 2 ^ 63" "int (length (runes ''   '')) < 2 ^ 63"
    by (simp_all add: runes_def)
  have sp: "\<forall>r \<in> set (runes []). IsSpace r" "\<forall>r \<in> set (runes ''   ''). IsSpace r"
    by (simp_all add: runes_def IsSpace_def)
  have c1: "ChunkText (runes ''a b  c d e '') 3 1 = Some (Inr [runes ''a b c'', runes ''c d e''])"
    using ChunkText_windows [OF a len(1)] by (simp add: f1 w)
  have c2: "ChunkText (runes ''a b c d e'') 3 1 = Some (Inr [runes ''a b c'', runes ''c d e''])"
    using ChunkText_windows [OF a len(2)] by (simp add: f2 w)
  have c3: "ChunkText (runes []) 3 1 = Some (Inr [])"
    using ChunkText_windows [OF a len(3)] sp(1) by blast
  have c4: "ChunkText (runes ''   '') 3 1 = Some (Inr [])"
    using ChunkText_windows [OF a len(4)] sp(2) by blast
  show ?thesis
    using a len(1) f1 c1 c2 c3 c4 by (intro conjI)
qed

end
